theory Spec2Isabelle
  imports Main "HOL-Library.Word"
begin

section \<open>twty: option builders, configuration, authorization and rendering\<close>

text \<open>
  A shallow embedding of \<^verbatim>\<open>twty.go\<close>. Go strings are byte strings (\<open>string\<close>),
  a \<^verbatim>\<open>map[string]string\<close> is a partial map, \<^verbatim>\<open>int64\<close> is a 64-bit word read
  with \<open>sint\<close>, and every effect (standard output, file system, network) is an
  event appended to a trace that the function returns.
\<close>

subsection \<open>Go standard library: \<^verbatim>\<open>strconv\<close> and \<^verbatim>\<open>strings\<close>\<close>

text \<open>
  The two failures of \<^verbatim>\<open>strconv\<close>: \<^verbatim>\<open>ErrSyntax\<close> and \<^verbatim>\<open>ErrRange\<close>.
\<close>

datatype NumError = ErrSyntax | ErrRange

text \<open>The byte of a digit, \<^verbatim>\<open>'0' <= c && c <= '9'\<close>, and its value \<^verbatim>\<open>c - '0'\<close>.\<close>

definition isDigit :: "char \<Rightarrow> bool" where
  "isDigit c = (48 \<le> (of_char c :: nat) \<and> (of_char c :: nat) \<le> 57)"

definition digitVal :: "char \<Rightarrow> nat" where
  "digitVal c = (of_char c :: nat) - 48"

text \<open>
  \<^verbatim>\<open>strconv.ParseUint(s, 10, 64)\<close> after its test for the empty string: the loop
  over the bytes, with \<^verbatim>\<open>cutoff = maxUint64/10 + 1\<close>. A byte that is no decimal
  digit is a syntax error; an overflow of \<^verbatim>\<open>n*10\<close> or of \<^verbatim>\<open>n*10 + d\<close> is a
  range error, reported where the loop meets it.
\<close>

definition maxUint64 :: nat where
  "maxUint64 = 2 ^ 64 - 1"

definition cutoff10 :: nat where
  "cutoff10 = maxUint64 div 10 + 1"

fun parseUintLoop :: "nat \<Rightarrow> string \<Rightarrow> NumError + nat" where
  "parseUintLoop n [] = Inr n"
| "parseUintLoop n (c # cs) =
     (if \<not> isDigit c then Inl ErrSyntax
      else if cutoff10 \<le> n then Inl ErrRange
      else if maxUint64 < n * 10 + digitVal c then Inl ErrRange
      else parseUintLoop (n * 10 + digitVal c) cs)"

definition ParseUint :: "string \<Rightarrow> NumError + nat" where
  "ParseUint s = (if s = [] then Inl ErrSyntax else parseUintLoop 0 s)"

text \<open>
  \<^verbatim>\<open>strconv.ParseInt(s, 10, 0)\<close> with 64-bit \<^verbatim>\<open>int\<close>: an optional sign, then
  \<^verbatim>\<open>ParseUint\<close>, then the test against \<^verbatim>\<open>1 << 63\<close>.
\<close>

definition ParseInt :: "string \<Rightarrow> NumError + int" where
  "ParseInt s =
     (case s of
        [] \<Rightarrow> Inl ErrSyntax
      | c # r \<Rightarrow>
          (let neg = (c = CHR ''-'');
               s1 = (if c = CHR ''+'' \<or> c = CHR ''-'' then r else s)
           in case ParseUint s1 of
                Inl e \<Rightarrow> Inl e
              | Inr un \<Rightarrow>
                  if \<not> neg \<and> 2 ^ 63 \<le> un then Inl ErrRange
                  else if neg \<and> 2 ^ 63 < un then Inl ErrRange
                  else Inr (if neg then - int un else int un)))"

text \<open>
  The fast path of \<^verbatim>\<open>strconv.Atoi\<close>: the loop \<^verbatim>\<open>n = n*10 + int(ch)\<close> over the
  bytes after the sign, a syntax error at the first byte that is no digit.
\<close>

fun atoiLoop :: "nat \<Rightarrow> string \<Rightarrow> NumError + nat" where
  "atoiLoop n [] = Inr n"
| "atoiLoop n (c # cs) =
     (if \<not> isDigit c then Inl ErrSyntax else atoiLoop (n * 10 + digitVal c) cs)"

text \<open>
  \<^verbatim>\<open>strconv.Atoi\<close> with \<^verbatim>\<open>intSize == 64\<close>: the fast path for strings of 1 to 18
  bytes, \<^verbatim>\<open>ParseInt(s, 10, 0)\<close> for the others.
\<close>

definition Atoi :: "string \<Rightarrow> NumError + int" where
  "Atoi s =
     (if 0 < length s \<and> length s < 19 then
        (case s of
           [] \<Rightarrow> Inl ErrSyntax
         | c # r \<Rightarrow>
             (let s1 = (if c = CHR ''-'' \<or> c = CHR ''+'' then r else s)
              in if (c = CHR ''-'' \<or> c = CHR ''+'') \<and> length s1 < 1 then Inl ErrSyntax
                 else case atoiLoop 0 s1 of
                        Inl e \<Rightarrow> Inl e
                      | Inr n \<Rightarrow> Inr (if c = CHR ''-'' then - int n else int n)))
      else ParseInt s)"

text \<open>
  \<^verbatim>\<open>strings.Split(s, sep)\<close> for a separator of one byte: the pieces of \<open>s\<close>
  between the separators, one piece more than there are separators, so that the
  empty string gives one empty piece.
\<close>

fun Split :: "string \<Rightarrow> char \<Rightarrow> string list" where
  "Split [] sep = [[]]"
| "Split (c # cs) sep =
     (if c = sep then [] # Split cs sep
      else (case Split cs sep of
              [] \<Rightarrow> [[c]]
            | p # ps \<Rightarrow> (c # p) # ps))"

text \<open>
  \<^verbatim>\<open>strconv.FormatInt(i, 10)\<close>: the decimal digits of the magnitude, most
  significant first, each read from the table \<^verbatim>\<open>digits\<close>, after a minus sign
  when \<open>i\<close> is negative.
\<close>

definition digits :: string where
  "digits = ''0123456789abcdefghijklmnopqrstuvwxyz''"

fun formatBits :: "nat \<Rightarrow> string" where
  "formatBits u =
     (if u < 10 then [digits ! u]
      else formatBits (u div 10) @ [digits ! (u mod 10)])"

definition FormatInt :: "int \<Rightarrow> string" where
  "FormatInt i = (if i < 0 then CHR ''-'' # formatBits (nat (- i)) else formatBits (nat i))"

subsection \<open>Option builders\<close>

type_synonym opts = "string \<rightharpoonup> string"

text \<open>\<^verbatim>\<open>countToOpt\<close>: the key is written when the string is not empty and \<^verbatim>\<open>Atoi\<close> succeeds.\<close>

definition countToOpt :: "opts \<Rightarrow> string \<Rightarrow> opts" where
  "countToOpt opt c =
     (if c \<noteq> []
      then (case Atoi c of Inr _ \<Rightarrow> opt(''count'' \<mapsto> c) | Inl _ \<Rightarrow> opt)
      else opt)"

text \<open>The loop of \<^verbatim>\<open>isTimeFormat\<close> over the pieces: false at the first that does not parse.\<close>

fun allAtoi :: "string list \<Rightarrow> bool" where
  "allAtoi [] = True"
| "allAtoi (v # vs) = (case Atoi v of Inl _ \<Rightarrow> False | Inr _ \<Rightarrow> allAtoi vs)"

definition isTimeFormat :: "string \<Rightarrow> bool" where
  "isTimeFormat t =
     (let splitFormat = Split t CHR ''-''
      in if length splitFormat \<noteq> 3 then False else allAtoi splitFormat)"

definition timeFormatToOpt :: "opts \<Rightarrow> string \<Rightarrow> string \<Rightarrow> opts" where
  "timeFormatToOpt opt key timeFormat =
     (if timeFormat \<noteq> [] \<or> \<not> isTimeFormat timeFormat then opt
      else opt(key \<mapsto> timeFormat))"

definition sinceToOpt :: "opts \<Rightarrow> string \<Rightarrow> opts" where
  "sinceToOpt opt timeFormat = timeFormatToOpt opt ''since'' timeFormat"

definition untilToOpt :: "opts \<Rightarrow> string \<Rightarrow> opts" where
  "untilToOpt opt timeFormat = timeFormatToOpt opt ''until'' timeFormat"

text \<open>\<^verbatim>\<open>idToOpt\<close>: \<^verbatim>\<open>id < 1\<close> is the signed comparison of \<^verbatim>\<open>int64\<close>
  (the parameter \<^verbatim>\<open>id\<close> is \<open>idv\<close> here, \<open>id\<close> being the identity function of HOL).\<close>

definition idToOpt :: "opts \<Rightarrow> string \<Rightarrow> 64 word \<Rightarrow> opts" where
  "idToOpt opt key idv =
     (if sint idv < 1 then opt else opt(key \<mapsto> FormatInt (sint idv)))"

definition sinceIDtoOpt :: "opts \<Rightarrow> 64 word \<Rightarrow> opts" where
  "sinceIDtoOpt opt idv = idToOpt opt ''since_id'' idv"

definition maxIDtoOpt :: "opts \<Rightarrow> 64 word \<Rightarrow> opts" where
  "maxIDtoOpt opt idv = idToOpt opt ''max_id'' idv"

subsection \<open>Data and effects\<close>

text \<open>The \<^verbatim>\<open>Tweet\<close> struct, its anonymous structs named after their fields.\<close>

record TweetUser =
  Name :: string
  ScreenName :: string
  FollowersCount :: int
  ProfileImageURL :: string

record TweetPlace =
  ID :: string
  FullName :: string

record HashTag =
  HashTagIndices :: "int \<times> int"
  HashTagText :: string

record UserMention =
  UserMentionIndices :: "int \<times> int"
  UserMentionScreenName :: string

record TweetURL =
  URLIndices :: "int \<times> int"
  URL :: string

record TweetEntities =
  HashTags :: "HashTag list"
  UserMentions :: "UserMention list"
  Urls :: "TweetURL list"

record Tweet =
  Text :: string
  Identifier :: string
  Source :: string
  CreatedAt :: string
  User :: TweetUser
  Place :: "TweetPlace option"
  Entities :: TweetEntities

text \<open>\<^verbatim>\<open>oauth.Credentials\<close>.\<close>

record Credentials =
  Token :: string
  Secret :: string

text \<open>
  A Go \<^verbatim>\<open>error\<close> with its message; \<^verbatim>\<open>os.IsNotExist\<close> holds of the first
  constructor only, and \<^verbatim>\<open>fmt.Errorf\<close> builds the second.
\<close>

datatype error = NotExistError string | OtherError string

fun Error :: "error \<Rightarrow> string" where
  "Error (NotExistError m) = m"
| "Error (OtherError m) = m"

fun IsNotExist :: "error \<Rightarrow> bool" where
  "IsNotExist (NotExistError m) = True"
| "IsNotExist (OtherError m) = False"

text \<open>The colour attributes of \<^verbatim>\<open>fatih/color\<close> that the program sets.\<close>

datatype Attribute = FgHiRed | FgHiYellow | Reset

text \<open>What a function does to the world, in the order it does it.\<close>

datatype event =
    ColorSet Attribute
  | Print string
  | Println string
  | Encode Tweet
  | Sync
  | MkdirAllEv string
  | GlobEv string
  | ReadFileEv string
  | RequestTemporaryCredentialsEv Credentials
  | StartEv string "string list"
  | ScanEv
  | RequestTokenEv Credentials string

text \<open>How a function ends: it returns, the process exits, or a slice bound panics.\<close>

datatype 'a outcome = Return 'a | Exit int | Panic

subsection \<open>Rendering tweets\<close>

text \<open>
  \<^verbatim>\<open>strings.NewReplacer\<close> on old strings of one byte: every byte with an entry
  in the table is replaced by the entry's string (the first pair wins), every
  other byte is kept.
\<close>

fun Replace :: "(char \<times> string) list \<Rightarrow> string \<Rightarrow> string" where
  "Replace tab [] = []"
| "Replace tab (b # bs) =
     (case map_of tab b of None \<Rightarrow> [b] | Some n \<Rightarrow> n) @ Replace tab bs"

definition replacer :: "(char \<times> string) list" where
  "replacer = [(CHR 0x0D, []), (CHR 0x0A, '' ''), (CHR 0x09, '' '')]"

text \<open>The constant \<^verbatim>\<open>_TimeLayout\<close>.\<close>

definition TimeLayout :: string where
  "TimeLayout = ''Mon Jan 02 15:04:05 -0700 2006''"

text \<open>
  The library functions that rendering calls, taken as parameters:
  \<^verbatim>\<open>html.UnescapeString\<close>, \<^verbatim>\<open>time.Parse(layout, value)\<close> (\<open>None\<close> when it returns
  an error) and \<^verbatim>\<open>t.Local().Format(layout)\<close>, for any type \<open>'t\<close> of time values.
\<close>

record 't platform =
  UnescapeString :: "string \<Rightarrow> string"
  Parse :: "string \<Rightarrow> string \<Rightarrow> 't option"
  LocalFormat :: "'t \<Rightarrow> string \<Rightarrow> string"

definition toLocalTime :: "'t platform \<Rightarrow> string \<Rightarrow> string" where
  "toLocalTime P timeStr =
     (case Parse P TimeLayout timeStr of
        None \<Rightarrow> timeStr
      | Some timeValue \<Rightarrow> LocalFormat P timeValue TimeLayout)"

text \<open>The bodies of the three loops of \<^verbatim>\<open>showTweets\<close>.\<close>

definition jsonBody :: "Tweet \<Rightarrow> event list" where
  "jsonBody tweet = [Encode tweet, Sync]"

definition verboseBody :: "'t platform \<Rightarrow> Tweet \<Rightarrow> event list" where
  "verboseBody P tweet =
     (let name = Name (User tweet);
          user = ScreenName (User tweet);
          text = Replace replacer (Text tweet)
      in [ColorSet FgHiRed,
          Println (user @ '': '' @ name),
          ColorSet Reset,
          Println (''  '' @ UnescapeString P text),
          Println (''  '' @ Identifier tweet),
          Println (''  '' @ toLocalTime P (CreatedAt tweet)),
          Println []])"

definition plainBody :: "'t platform \<Rightarrow> Tweet \<Rightarrow> event list" where
  "plainBody P tweet =
     (let user = ScreenName (User tweet);
          text = Text tweet
      in [ColorSet FgHiRed,
          Print user,
          ColorSet Reset,
          Print '': '',
          Println (UnescapeString P text)])"

text \<open>\<^verbatim>\<open>for _, tweet := range tweets\<close>.\<close>

fun rangeLoop :: "(Tweet \<Rightarrow> event list) \<Rightarrow> Tweet list \<Rightarrow> event list" where
  "rangeLoop body [] = []"
| "rangeLoop body (tweet # tweets) = body tweet @ rangeLoop body tweets"

text \<open>
  \<^verbatim>\<open>for i := len(tweets) - 1; i >= 0; i--\<close> from a given \<open>i\<close>; an index out
  of range would panic, and the events written before it stay written.
\<close>

function downLoop ::
  "(Tweet \<Rightarrow> event list) \<Rightarrow> Tweet list \<Rightarrow> int \<Rightarrow> unit outcome \<times> event list" where
  "downLoop body tweets i =
     (if 0 \<le> i then
        (if i < int (length tweets)
         then (case downLoop body tweets (i - 1) of
                 (r, evs) \<Rightarrow> (r, body (tweets ! nat i) @ evs))
         else (Panic, []))
      else (Return (), []))"
  by pat_completeness auto
termination
  by (relation "measure (\<lambda>(body, tweets, i). nat (i + 1))") auto

definition showTweets ::
  "'t platform \<Rightarrow> Tweet list \<Rightarrow> bool \<Rightarrow> bool \<Rightarrow> unit outcome \<times> event list" where
  "showTweets P tweets asjson verbose =
     (if asjson then (Return (), rangeLoop jsonBody tweets)
      else if verbose then downLoop (verboseBody P) tweets (int (length tweets) - 1)
      else downLoop (plainBody P) tweets (int (length tweets) - 1))"

text \<open>What one tweet contributes to the output in each mode.\<close>

definition renderTweet :: "'t platform \<Rightarrow> bool \<Rightarrow> bool \<Rightarrow> Tweet \<Rightarrow> event list" where
  "renderTweet P asjson verbose tweet =
     (if asjson then jsonBody tweet
      else if verbose then verboseBody P tweet
      else plainBody P tweet)"

subsection \<open>The environment\<close>

text \<open>
  The operating system, the file system, the terminal and the OAuth provider, as
  the functions of the Go libraries that the program calls: \<^verbatim>\<open>os.Getenv\<close>,
  \<^verbatim>\<open>runtime.GOOS\<close>, \<^verbatim>\<open>filepath.Join\<close>, \<^verbatim>\<open>filepath.Base\<close>, \<^verbatim>\<open>os.MkdirAll\<close>
  (\<open>None\<close> is a nil error), \<^verbatim>\<open>filepath.Glob\<close>, \<^verbatim>\<open>ioutil.ReadFile\<close>,
  \<^verbatim>\<open>json.Unmarshal\<close> into an empty map, the three calls of the OAuth client (each
  given the client credentials it signs with), \<^verbatim>\<open>exec.LookPath\<close>, \<^verbatim>\<open>cmd.Start\<close>
  and one \<^verbatim>\<open>Scan\<close> of standard input (\<open>None\<close> at the end of input).
\<close>

record env =
  Getenv :: "string \<Rightarrow> string"
  GOOS :: string
  Join :: "string list \<Rightarrow> string"
  Base :: "string \<Rightarrow> string"
  MkdirAll :: "string \<Rightarrow> error option"
  Glob :: "string \<Rightarrow> error + string list"
  ReadFile :: "string \<Rightarrow> error + string"
  Unmarshal :: "string \<Rightarrow> error + opts"
  RequestTemporaryCredentials :: "Credentials \<Rightarrow> error + Credentials"
  AuthorizationURL :: "Credentials \<Rightarrow> string"
  RequestToken :: "Credentials \<Rightarrow> Credentials \<Rightarrow> string \<Rightarrow> error + Credentials"
  LookPath :: "string \<Rightarrow> error + string"
  Start :: "string \<Rightarrow> string list \<Rightarrow> error option"
  Scan :: "string option"

subsection \<open>Configuration\<close>

text \<open>The slice expression \<^verbatim>\<open>s[lo:hi]\<close>: \<open>None\<close> is the panic of a bound out of range.\<close>

definition slice :: "string \<Rightarrow> int \<Rightarrow> int \<Rightarrow> string option" where
  "slice s lo hi =
     (if 0 \<le> lo \<and> lo \<le> hi \<and> hi \<le> int (length s)
      then Some (take (nat (hi - lo)) (drop (nat lo) s))
      else None)"

text \<open>\<^verbatim>\<open>strings.TrimLeft(s, cutset)\<close> for a cutset of ASCII bytes.\<close>

definition TrimLeft :: "string \<Rightarrow> string \<Rightarrow> string" where
  "TrimLeft s cutset = dropWhile (\<lambda>c. c \<in> set cutset) s"

text \<open>The directory of the settings files, lines 366 to 375 of \<^verbatim>\<open>getConfig\<close>.\<close>

definition configDir :: "env \<Rightarrow> string" where
  "configDir E =
     (let dir = Getenv E ''HOME''
      in if dir = [] \<and> GOOS E = ''windows''
         then (let dir1 = Getenv E ''APPDATA'';
                   dir2 = (if dir1 = []
                           then Join E [Getenv E ''USERPROFILE'', ''Application Data'', ''twty'']
                           else dir1)
               in Join E [dir2, ''twty''])
         else Join E [dir, ''.config'', ''twty''])"

text \<open>The loop over the names that \<^verbatim>\<open>filepath.Glob\<close> found, for the profile \<^verbatim>\<open>?\<close>.\<close>

fun printNames :: "env \<Rightarrow> string list \<Rightarrow> unit outcome \<times> event list" where
  "printNames E [] = (Return (), [])"
| "printNames E (name # names) =
     (let name1 = Base E name
      in case slice name1 8 (int (length name1) - 5) of
           None \<Rightarrow> (Panic, [])
         | Some mid \<Rightarrow>
             (case printNames E names of
                (r, evs) \<Rightarrow> (r, Println (TrimLeft mid ''-'') # evs)))"

text \<open>
  Lines 396 to 411 of \<^verbatim>\<open>getConfig\<close>: read the file; seed the two client
  credentials when it does not exist, parse it when it does.
\<close>

definition loadSettings :: "env \<Rightarrow> string \<Rightarrow> error + string \<times> opts" where
  "loadSettings E file =
     (case ReadFile E file of
        Inl err \<Rightarrow>
          if \<not> IsNotExist err then Inl err
          else Inr (file, [''ClientToken'' \<mapsto> ''MbartJkKCrSegn45xK9XLw'',
                           ''ClientSecret'' \<mapsto> ''1nI3dHFtK9UY1kL6UEYWk6r2lFEcNHWhk7MtXe7eo''])
      | Inr b \<Rightarrow>
          (case Unmarshal E b of
             Inl err \<Rightarrow> Inl (OtherError (''could not unmarshal '' @ file @ '': '' @ Error err))
           | Inr config \<Rightarrow> Inr (file, config)))"

definition getConfig :: "env \<Rightarrow> string \<Rightarrow> (error + string \<times> opts) outcome \<times> event list" where
  "getConfig E profile =
     (let dir = configDir E
      in case MkdirAll E dir of
           Some err \<Rightarrow> (Return (Inl err), [MkdirAllEv dir])
         | None \<Rightarrow>
             if profile = [] then
               (let file = Join E [dir, ''settings.json'']
                in (Return (loadSettings E file), [MkdirAllEv dir, ReadFileEv file]))
             else if profile = ''?'' then
               (let pat = Join E [dir, ''settings*.json'']
                in case Glob E pat of
                     Inl err \<Rightarrow> (Return (Inl err), [MkdirAllEv dir, GlobEv pat])
                   | Inr names \<Rightarrow>
                       (case printNames E names of
                          (Return u, evs) \<Rightarrow> (Exit 0, [MkdirAllEv dir, GlobEv pat] @ evs)
                        | (Exit n, evs) \<Rightarrow> (Exit n, [MkdirAllEv dir, GlobEv pat] @ evs)
                        | (Panic, evs) \<Rightarrow> (Panic, [MkdirAllEv dir, GlobEv pat] @ evs)))
             else
               (let file = Join E [dir, ''settings-'' @ profile @ ''.json'']
                in (Return (loadSettings E file), [MkdirAllEv dir, ReadFileEv file])))"

subsection \<open>Authorization\<close>

text \<open>A map read \<^verbatim>\<open>m[k]\<close>: the empty string for a key that is absent.\<close>

definition lookup :: "opts \<Rightarrow> string \<Rightarrow> string" where
  "lookup m k = (case m k of None \<Rightarrow> [] | Some v \<Rightarrow> v)"

text \<open>Lines 189 to 198 of \<^verbatim>\<open>clientAuth\<close>: the prompt, the PIN and its exchange.\<close>

definition exchangePin :: "env \<Rightarrow> Credentials \<Rightarrow> Credentials \<Rightarrow> (error + Credentials) \<times> event list" where
  "exchangePin E client requestToken =
     (case Scan E of
        None \<Rightarrow> (Inl (OtherError ''canceled''), [Print ''PIN: '', ScanEv])
      | Some pin \<Rightarrow>
          (case RequestToken E client requestToken pin of
             Inl err \<Rightarrow>
               (Inl (OtherError (''cannot request token: '' @ Error err)),
                [Print ''PIN: '', ScanEv, RequestTokenEv requestToken pin])
           | Inr accessToken \<Rightarrow>
               (Inr accessToken, [Print ''PIN: '', ScanEv, RequestTokenEv requestToken pin])))"

definition clientAuth :: "env \<Rightarrow> Credentials \<Rightarrow> Credentials \<Rightarrow> (error + Credentials) \<times> event list" where
  "clientAuth E client requestToken =
     (let url = AuthorizationURL E requestToken;
          browser = (if GOOS E = ''windows'' then ''rundll32.exe''
                     else if GOOS E = ''darwin'' then ''open''
                     else if GOOS E = ''plan9'' then ''plumb''
                     else ''xdg-open'');
          args = (if GOOS E = ''windows'' then [''url.dll,FileProtocolHandler'', url] else [url]);
          prompt = [ColorSet FgHiRed, Println ''Open this URL and enter PIN.'',
                    ColorSet Reset, Println url]
      in case LookPath E browser of
           Inr path \<Rightarrow>
             (case Start E path args of
                Some err \<Rightarrow>
                  (Inl (OtherError (''cannot start command: '' @ Error err)),
                   prompt @ [StartEv path args])
              | None \<Rightarrow>
                  (case exchangePin E client requestToken of
                     (r, evs) \<Rightarrow> (r, prompt @ [StartEv path args] @ evs)))
         | Inl err \<Rightarrow>
             (case exchangePin E client requestToken of
                (r, evs) \<Rightarrow> (r, prompt @ evs)))"

text \<open>
  \<^verbatim>\<open>getAccessToken\<close> returns its result, the configuration map as it leaves it,
  the credentials it stored in the global \<^verbatim>\<open>oauthClient\<close>, and its events.
\<close>

definition getAccessToken ::
  "env \<Rightarrow> opts \<Rightarrow> (error + Credentials \<times> bool) \<times> opts \<times> Credentials \<times> event list" where
  "getAccessToken E config =
     (let client = \<lparr>Token = lookup config ''ClientToken'', Secret = lookup config ''ClientSecret''\<rparr>;
          accessToken = lookup config ''AccessToken'';
          foundToken = (config ''AccessToken'' \<noteq> None);
          accessSecret = lookup config ''AccessSecret'';
          foundSecret = (config ''AccessSecret'' \<noteq> None)
      in if foundToken \<and> foundSecret
         then (Inr (\<lparr>Token = accessToken, Secret = accessSecret\<rparr>, False), config, client, [])
         else
           (case RequestTemporaryCredentials E client of
              Inl err \<Rightarrow>
                (Inl (OtherError (''cannot request temporary credentials: '' @ Error err)),
                 config, client, [RequestTemporaryCredentialsEv client])
            | Inr requestToken \<Rightarrow>
                (case clientAuth E client requestToken of
                   (Inl err, evs) \<Rightarrow>
                     (Inl (OtherError (''cannot request temporary credentials: '' @ Error err)),
                      config, client, RequestTemporaryCredentialsEv client # evs)
                 | (Inr token, evs) \<Rightarrow>
                     (Inr (token, True),
                      config(''AccessToken'' \<mapsto> Token token, ''AccessSecret'' \<mapsto> Secret token),
                      client, RequestTemporaryCredentialsEv client # evs))))"

subsection \<open>Sample values\<close>

text \<open>
  A tweet, a platform and an environment on which the closed instances below are
  evaluated. The sample platform leaves HTML entities as they are and parses one
  timestamp; the sample environment is a Unix machine with no settings file, no
  browser and no network, where \<^verbatim>\<open>filepath.Glob\<close> finds the given names.
\<close>

definition sampleTweet :: "string \<Rightarrow> string \<Rightarrow> string \<Rightarrow> Tweet" where
  "sampleTweet ident body created =
     \<lparr>Text = body, Identifier = ident, Source = ''web'', CreatedAt = created,
      User = \<lparr>Name = ''Alice A'', ScreenName = ''alice'', FollowersCount = 7,
              ProfileImageURL = []\<rparr>,
      Place = None,
      Entities = \<lparr>HashTags = [], UserMentions = [], Urls = []\<rparr>\<rparr>"

definition samplePlatform :: "unit platform" where
  "samplePlatform =
     \<lparr>UnescapeString = (\<lambda>s. s),
      Parse = (\<lambda>layout v. if v = ''Mon May 01 10:00:00 +0000 2017'' then Some () else None),
      LocalFormat = (\<lambda>t layout. ''Mon May 01 19:00:00 +0900 2017'')\<rparr>"

definition sampleEnv :: "string list \<Rightarrow> env" where
  "sampleEnv names =
     \<lparr>Getenv = (\<lambda>k. if k = ''HOME'' then ''/home/u'' else []),
      GOOS = ''linux'',
      Join = (\<lambda>elems. foldr (\<lambda>a b. if b = [] then a else a @ ''/'' @ b) elems []),
      Base = (\<lambda>p. rev (takeWhile (\<lambda>c. c \<noteq> CHR ''/'') (rev p))),
      MkdirAll = (\<lambda>d. None),
      Glob = (\<lambda>pat. Inr names),
      ReadFile = (\<lambda>f. Inl (NotExistError ''no such file or directory'')),
      Unmarshal = (\<lambda>b. Inr Map.empty),
      RequestTemporaryCredentials = (\<lambda>c. Inl (OtherError ''no network'')),
      AuthorizationURL = (\<lambda>c. []),
      RequestToken = (\<lambda>c r p. Inl (OtherError ''no network'')),
      LookPath = (\<lambda>b. Inl (OtherError ''executable file not found'')),
      Start = (\<lambda>p a. None),
      Scan = None\<rparr>"

section \<open>Properties\<close>

declare downLoop.simps [simp del]

declare formatBits.simps [simp del]

subsection \<open>The library functions\<close>

lemma Atoi_Nil: "Atoi [] = Inl ErrSyntax"
  by (simp add: Atoi_def ParseInt_def)

lemma Split_not_Nil: "Split s sep \<noteq> []"
  by (induction s) (simp_all split: list.split)

lemma length_Split: "length (Split s sep) = Suc (count_list s sep)"
  by (induction s) (auto simp: Split_not_Nil split: list.split)

lemma Split_no_sep: "sep \<notin> set a \<Longrightarrow> Split a sep = [a]"
  by (induction a) auto

lemma Split_append_sep: "sep \<notin> set a \<Longrightarrow> Split (a @ sep # r) sep = a # Split r sep"
  by (induction a) auto

text \<open>The first piece holds no separator, and the other pieces are the split of what follows it.\<close>

lemma Split_Cons_D:
  "Split s sep = p # ps \<Longrightarrow>
     sep \<notin> set p \<and> (if ps = [] then s = p else \<exists>r. s = p @ sep # r \<and> Split r sep = ps)"
proof (induction s arbitrary: p ps)
  case Nil
  then show ?case by simp
next
  case (Cons c cs)
  show ?case
  proof (cases "c = sep")
    case True
    with Cons.prems show ?thesis by (auto simp: Split_not_Nil)
  next
    case False
    from Split_not_Nil [of cs sep] obtain q qs where q: "Split cs sep = q # qs"
      by (cases "Split cs sep") auto
    with Cons.prems False have p: "p = c # q" "ps = qs" by simp_all
    from Cons.IH [OF q] False p show ?thesis by auto
  qed
qed

text \<open>Three pieces come from exactly the strings with two separators.\<close>

lemma Split_three:
  "Split s sep = [a, b, c] \<longleftrightarrow>
     s = a @ sep # b @ sep # c \<and> sep \<notin> set a \<and> sep \<notin> set b \<and> sep \<notin> set c"
proof
  assume h: "Split s sep = [a, b, c]"
  from Split_Cons_D [OF h] obtain r
    where r: "sep \<notin> set a" "s = a @ sep # r" "Split r sep = [b, c]"
    by auto
  from Split_Cons_D [OF r(3)] obtain r'
    where r': "sep \<notin> set b" "r = b @ sep # r'" "Split r' sep = [c]"
    by auto
  from Split_Cons_D [OF r'(3)] have "sep \<notin> set c" "r' = c" by auto
  with r r' show "s = a @ sep # b @ sep # c \<and> sep \<notin> set a \<and> sep \<notin> set b \<and> sep \<notin> set c"
    by simp
next
  assume "s = a @ sep # b @ sep # c \<and> sep \<notin> set a \<and> sep \<notin> set b \<and> sep \<notin> set c"
  then show "Split s sep = [a, b, c]"
    by (simp add: Split_append_sep Split_no_sep)
qed

lemma maxUint64_eq: "maxUint64 = 18446744073709551615"
  by (simp add: maxUint64_def)

lemma cutoff10_eq: "cutoff10 = 1844674407370955162"
  by (simp add: cutoff10_def maxUint64_eq)

lemma digits_nth: "d < 10 \<Longrightarrow> isDigit (digits ! d) \<and> digitVal (digits ! d) = d"
proof -
  assume "d < 10"
  then have "d = 0 \<or> d = 1 \<or> d = 2 \<or> d = 3 \<or> d = 4 \<or> d = 5 \<or> d = 6 \<or> d = 7 \<or> d = 8 \<or> d = 9"
    by arith
  then show ?thesis
    by (elim disjE) (simp_all add: digits_def isDigit_def digitVal_def)
qed

lemma isDigit_not_sign: "isDigit c \<Longrightarrow> c \<noteq> CHR ''-'' \<and> c \<noteq> CHR ''+''"
  by (auto simp: isDigit_def)

lemma formatBits_isDigit: "c \<in> set (formatBits u) \<Longrightarrow> isDigit c"
proof (induction u rule: formatBits.induct)
  case (1 u)
  show ?case
  proof (cases "u < 10")
    case True
    with "1.prems" show ?thesis
      by (simp add: formatBits.simps [of u] digits_nth)
  next
    case False
    have d: "u mod 10 < 10" by simp
    from False "1.prems" "1.IH" show ?thesis
      by (auto simp: formatBits.simps [of u] digits_nth [OF d])
  qed
qed

lemma formatBits_not_Nil: "formatBits u \<noteq> []"
  by (subst formatBits.simps) simp

lemma digitVal_zero: "digitVal CHR ''0'' = 0"
  by (simp add: digitVal_def)

text \<open>The digits of a positive number do not start with a zero.\<close>

lemma formatBits_hd: "0 < u \<Longrightarrow> hd (formatBits u) \<noteq> CHR ''0''"
proof (induction u rule: formatBits.induct)
  case (1 u)
  show ?case
  proof (cases "u < 10")
    case True
    with "1.prems" digits_nth [of u] digitVal_zero show ?thesis
      by (auto simp: formatBits.simps [of u])
  next
    case False
    then have "0 < u div 10" by simp
    with False "1.IH" have "hd (formatBits (u div 10)) \<noteq> CHR ''0''" by simp
    with False show ?thesis
      by (simp add: formatBits.simps [of u] formatBits_not_Nil)
  qed
qed

lemma atoiLoop_append:
  "atoiLoop n (xs @ ys) = (case atoiLoop n xs of Inl e \<Rightarrow> Inl e | Inr m \<Rightarrow> atoiLoop m ys)"
  by (induction xs arbitrary: n) simp_all

lemma atoiLoop_formatBits: "atoiLoop 0 (formatBits u) = Inr u"
proof (induction u rule: formatBits.induct)
  case (1 u)
  show ?case
  proof (cases "u < 10")
    case True
    then show ?thesis by (subst formatBits.simps) (simp add: digits_nth)
  next
    case False
    have d: "u mod 10 < 10" by simp
    from False "1.IH" show ?thesis
      by (subst formatBits.simps) (simp add: atoiLoop_append digits_nth [OF d])
  qed
qed

lemma parseUintLoop_append:
  "parseUintLoop n (xs @ ys) =
     (case parseUintLoop n xs of Inl e \<Rightarrow> Inl e | Inr m \<Rightarrow> parseUintLoop m ys)"
  by (induction xs arbitrary: n) simp_all

lemma parseUintLoop_formatBits: "u \<le> maxUint64 \<Longrightarrow> parseUintLoop 0 (formatBits u) = Inr u"
proof (induction u rule: formatBits.induct)
  case (1 u)
  show ?case
  proof (cases "u < 10")
    case True
    then show ?thesis
      by (subst formatBits.simps) (simp add: digits_nth maxUint64_eq cutoff10_eq)
  next
    case False
    have d: "u mod 10 < 10" by simp
    from "1.prems" have le: "u div 10 \<le> maxUint64" by simp
    from "1.prems" have c: "\<not> cutoff10 \<le> u div 10"
      by (simp add: maxUint64_eq cutoff10_eq)
    from False "1.IH" le have ih: "parseUintLoop 0 (formatBits (u div 10)) = Inr (u div 10)"
      by simp
    from False "1.prems" show ?thesis
      by (subst formatBits.simps) (simp add: parseUintLoop_append ih digits_nth [OF d] c)
  qed
qed

lemma Atoi_formatBits: "u < 2 ^ 63 \<Longrightarrow> Atoi (formatBits u) = Inr (int u)"
proof -
  assume u: "u < 2 ^ 63"
  obtain c r where s: "formatBits u = c # r"
    using formatBits_not_Nil [of u] by (cases "formatBits u") auto
  then have "isDigit c" using formatBits_isDigit [of c u] by simp
  then have c: "c \<noteq> CHR ''-''" "c \<noteq> CHR ''+''" using isDigit_not_sign by auto
  have a: "atoiLoop 0 (c # r) = Inr u" using atoiLoop_formatBits [of u] s by simp
  have "u \<le> maxUint64" using u by (simp add: maxUint64_eq)
  then have p: "parseUintLoop 0 (c # r) = Inr u" using parseUintLoop_formatBits [of u] s by simp
  show ?thesis
    unfolding s Atoi_def ParseInt_def ParseUint_def Let_def
    using c u by (simp add: a p del: atoiLoop.simps parseUintLoop.simps)
qed

lemma Atoi_minus_formatBits:
  "u \<le> 2 ^ 63 \<Longrightarrow> 0 < u \<Longrightarrow> Atoi (CHR ''-'' # formatBits u) = Inr (- int u)"
proof -
  assume u: "u \<le> 2 ^ 63" and pos: "0 < u"
  have n: "formatBits u \<noteq> []" by (rule formatBits_not_Nil)
  have a: "atoiLoop 0 (formatBits u) = Inr u" by (rule atoiLoop_formatBits)
  have "u \<le> maxUint64" using u by (simp add: maxUint64_eq)
  then have p: "parseUintLoop 0 (formatBits u) = Inr u" by (rule parseUintLoop_formatBits)
  have l: "\<not> length (formatBits u) < Suc 0" using n by (cases "formatBits u") auto
  show ?thesis
    unfolding Atoi_def ParseInt_def ParseUint_def Let_def
    using u n l by (simp add: a p)
qed

text \<open>
  \<^verbatim>\<open>Atoi\<close> reads back what \<^verbatim>\<open>FormatInt\<close> writes, for every value of \<^verbatim>\<open>int64\<close>:
  the string that \<^verbatim>\<open>FormatInt\<close> returns is a decimal form of its argument.
\<close>

lemma Atoi_FormatInt:
  "- (2 ^ 63) \<le> i \<Longrightarrow> i < 2 ^ 63 \<Longrightarrow> Atoi (FormatInt i) = Inr i"
proof -
  assume lo: "- (2 ^ 63) \<le> i" and hi: "i < 2 ^ 63"
  show ?thesis
  proof (cases "i < 0")
    case True
    then have "nat (- i) \<le> 2 ^ 63" "0 < nat (- i)" using lo by auto
    from Atoi_minus_formatBits [OF this] True show ?thesis by (simp add: FormatInt_def)
  next
    case False
    then have "nat i < 2 ^ 63" using hi by auto
    from Atoi_formatBits [OF this] False show ?thesis by (simp add: FormatInt_def)
  qed
qed

lemma Atoi_FormatInt_sint: "Atoi (FormatInt (sint (w :: 64 word))) = Inr (sint w)"
proof -
  have "- (2 ^ 63) \<le> sint w" "sint w < 2 ^ 63"
    using sint_ge [of w] sint_lt [of w] by simp_all
  then show ?thesis by (rule Atoi_FormatInt)
qed

text \<open>Evaluations of \<^verbatim>\<open>Atoi\<close> that the closed instances use.\<close>

lemma Atoi_99: "Atoi ''99'' = Inr 99"
  by (simp add: Atoi_def isDigit_def digitVal_def)

lemma Atoi_20: "Atoi ''20'' = Inr 20"
  by (simp add: Atoi_def isDigit_def digitVal_def)

lemma Atoi_abc: "Atoi ''abc'' = Inl ErrSyntax"
  by (simp add: Atoi_def isDigit_def digitVal_def)

lemma Atoi_ab: "Atoi ''ab'' = Inl ErrSyntax"
  by (simp add: Atoi_def isDigit_def digitVal_def)

subsection \<open>The option builders\<close>

lemma allAtoi_iff: "allAtoi vs \<longleftrightarrow> (\<forall>v \<in> set vs. \<exists>n. Atoi v = Inr n)"
  by (induction vs) (auto split: sum.splits)

lemma isTimeFormat_Nil: "\<not> isTimeFormat []"
  by (simp add: isTimeFormat_def)

lemma timeFormatToOpt_id: "timeFormatToOpt opt key s = opt"
  by (cases "s = []") (simp_all add: timeFormatToOpt_def isTimeFormat_Nil)

lemma countToOpt_eq:
  "countToOpt opt c = (case Atoi c of Inr n \<Rightarrow> opt(''count'' \<mapsto> c) | Inl e \<Rightarrow> opt)"
  by (cases "c = []") (simp_all add: countToOpt_def Atoi_Nil)

text \<open>
  The date shape in the words of the source's comment, with \<^verbatim>\<open>Atoi\<close> for the
  digits: two hyphens, and three parts between them that parse.
\<close>

lemma isTimeFormat_shape:
  "isTimeFormat s \<longleftrightarrow>
     (\<exists>a b c. s = a @ ''-'' @ b @ ''-'' @ c \<and>
        CHR ''-'' \<notin> set a \<and> CHR ''-'' \<notin> set b \<and> CHR ''-'' \<notin> set c \<and>
        (\<exists>x. Atoi a = Inr x) \<and> (\<exists>y. Atoi b = Inr y) \<and> (\<exists>z. Atoi c = Inr z))"
proof
  assume h: "isTimeFormat s"
  then have l: "length (Split s CHR ''-'') = 3" and a: "allAtoi (Split s CHR ''-'')"
    by (auto simp: isTimeFormat_def Let_def split: if_splits)
  from l obtain a b c where abc: "Split s CHR ''-'' = [a, b, c]"
    by (auto simp: length_Suc_conv numeral_3_eq_3)
  from a abc have "(\<exists>x. Atoi a = Inr x) \<and> (\<exists>y. Atoi b = Inr y) \<and> (\<exists>z. Atoi c = Inr z)"
    by (simp add: allAtoi_iff)
  with abc [unfolded Split_three]
  show "\<exists>a b c. s = a @ ''-'' @ b @ ''-'' @ c \<and>
        CHR ''-'' \<notin> set a \<and> CHR ''-'' \<notin> set b \<and> CHR ''-'' \<notin> set c \<and>
        (\<exists>x. Atoi a = Inr x) \<and> (\<exists>y. Atoi b = Inr y) \<and> (\<exists>z. Atoi c = Inr z)"
    by auto
next
  assume "\<exists>a b c. s = a @ ''-'' @ b @ ''-'' @ c \<and>
        CHR ''-'' \<notin> set a \<and> CHR ''-'' \<notin> set b \<and> CHR ''-'' \<notin> set c \<and>
        (\<exists>x. Atoi a = Inr x) \<and> (\<exists>y. Atoi b = Inr y) \<and> (\<exists>z. Atoi c = Inr z)"
  then obtain a b c where s: "s = a @ CHR ''-'' # b @ CHR ''-'' # c"
    and n: "CHR ''-'' \<notin> set a" "CHR ''-'' \<notin> set b" "CHR ''-'' \<notin> set c"
    and p: "\<exists>x. Atoi a = Inr x" "\<exists>y. Atoi b = Inr y" "\<exists>z. Atoi c = Inr z"
    by auto
  from s n have "Split s CHR ''-'' = [a, b, c]"
    by (simp add: Split_three)
  with p show "isTimeFormat s"
    by (auto simp: isTimeFormat_def Let_def)
qed

text \<open>
  Claim C1. For every parameter mapping and every input string, \<^verbatim>\<open>timeFormatToOpt\<close>,
  \<^verbatim>\<open>sinceToOpt\<close> and \<^verbatim>\<open>untilToOpt\<close> return the mapping they were given: the key
  is never written, because a string that is not empty returns at once and the
  empty string fails the shape check.
\<close>

theorem since_until_never_written:
  "timeFormatToOpt opt key s = opt \<and> sinceToOpt opt s = opt \<and> untilToOpt opt s = opt \<and>
   \<not> isTimeFormat []"
  by (simp add: sinceToOpt_def untilToOpt_def timeFormatToOpt_id isTimeFormat_Nil)

theorem since_until_never_written_witness:
  "timeFormatToOpt [''q'' \<mapsto> ''go''] ''since'' ''2017-05-01'' = [''q'' \<mapsto> ''go''] \<and>
   sinceToOpt [''q'' \<mapsto> ''go''] ''2017-05-01'' = [''q'' \<mapsto> ''go''] \<and>
   untilToOpt [''q'' \<mapsto> ''go''] ''2017-05-01'' = [''q'' \<mapsto> ''go''] \<and>
   \<not> isTimeFormat []"
  by (rule since_until_never_written)

text \<open>
  Claim C3. \<^verbatim>\<open>isTimeFormat\<close> holds of a string if and only if splitting it on the
  hyphen gives exactly three pieces and \<^verbatim>\<open>Atoi\<close> parses each of them; nothing else
  is checked.
\<close>

theorem isTimeFormat_iff:
  "isTimeFormat s \<longleftrightarrow>
     length (Split s CHR ''-'') = 3 \<and> (\<forall>v \<in> set (Split s CHR ''-''). \<exists>n. Atoi v = Inr n)"
  by (simp add: isTimeFormat_def Let_def allAtoi_iff)

theorem isTimeFormat_iff_witness:
  "isTimeFormat ''99-99-99'' \<and> \<not> isTimeFormat ''2017-05'' \<and>
   \<not> isTimeFormat ''2017-05-01-00'' \<and> \<not> isTimeFormat ''2017-ab-01''"
  using isTimeFormat_iff [of "''99-99-99''"] isTimeFormat_iff [of "''2017-05''"]
    isTimeFormat_iff [of "''2017-05-01-00''"] isTimeFormat_iff [of "''2017-ab-01''"]
  by (simp add: Atoi_99 Atoi_ab)

text \<open>
  Claim C4. \<^verbatim>\<open>sinceIDtoOpt\<close> and \<^verbatim>\<open>maxIDtoOpt\<close> return the mapping unchanged when
  the id is less than 1, and set \<^verbatim>\<open>since_id\<close> (\<^verbatim>\<open>max_id\<close>) to the string of
  \<^verbatim>\<open>FormatInt\<close> when it is at least 1. That string is the decimal form of the id:
  digits only, no leading zero, and \<^verbatim>\<open>Atoi\<close> reads the id back from it.
\<close>

theorem idToOpt_gating:
  "(sint idv < 1 \<longrightarrow> sinceIDtoOpt opt idv = opt \<and> maxIDtoOpt opt idv = opt) \<and>
   (1 \<le> sint idv \<longrightarrow>
      sinceIDtoOpt opt idv = opt(''since_id'' \<mapsto> FormatInt (sint idv)) \<and>
      maxIDtoOpt opt idv = opt(''max_id'' \<mapsto> FormatInt (sint idv)) \<and>
      (\<forall>c \<in> set (FormatInt (sint idv)). isDigit c) \<and>
      hd (FormatInt (sint idv)) \<noteq> CHR ''0'') \<and>
   Atoi (FormatInt (sint idv)) = Inr (sint idv)"
proof -
  have d: "(\<forall>c \<in> set (FormatInt (sint idv)). isDigit c) \<and> hd (FormatInt (sint idv)) \<noteq> CHR ''0''"
    if "1 \<le> sint idv"
    using that by (auto simp: FormatInt_def formatBits_hd dest: formatBits_isDigit)
  show ?thesis
    using d by (simp add: sinceIDtoOpt_def maxIDtoOpt_def idToOpt_def Atoi_FormatInt_sint)
qed

theorem idToOpt_gating_witness:
  "sinceIDtoOpt [''slug'' \<mapsto> ''go''] 0 = [''slug'' \<mapsto> ''go''] \<and>
   maxIDtoOpt [''slug'' \<mapsto> ''go''] (- 5) = [''slug'' \<mapsto> ''go''] \<and>
   sinceIDtoOpt [''slug'' \<mapsto> ''go''] 1 = [''slug'' \<mapsto> ''go'', ''since_id'' \<mapsto> ''1''] \<and>
   maxIDtoOpt [''slug'' \<mapsto> ''go''] 1234567890123 =
     [''slug'' \<mapsto> ''go'', ''max_id'' \<mapsto> ''1234567890123'']"
  using idToOpt_gating [of 0 "[''slug'' \<mapsto> ''go'']"]
    idToOpt_gating [of "- 5" "[''slug'' \<mapsto> ''go'']"]
    idToOpt_gating [of 1 "[''slug'' \<mapsto> ''go'']"]
    idToOpt_gating [of 1234567890123 "[''slug'' \<mapsto> ''go'']"]
  by (simp add: FormatInt_def formatBits.simps digits_def)

text \<open>
  Claim C5. \<^verbatim>\<open>countToOpt\<close> sets \<^verbatim>\<open>count\<close> to the string itself when \<^verbatim>\<open>Atoi\<close>
  parses it, and returns the mapping unchanged when \<^verbatim>\<open>Atoi\<close> fails, the empty
  string included; it has no error result.
\<close>

theorem countToOpt_gating:
  "(Atoi c = Inr n \<longrightarrow> countToOpt opt c = opt(''count'' \<mapsto> c)) \<and>
   (Atoi c = Inl e \<longrightarrow> countToOpt opt c = opt)"
  by (simp add: countToOpt_eq)

theorem countToOpt_gating_witness:
  "countToOpt [''q'' \<mapsto> ''go''] ''20'' = [''q'' \<mapsto> ''go'', ''count'' \<mapsto> ''20''] \<and>
   countToOpt [''q'' \<mapsto> ''go''] ''abc'' = [''q'' \<mapsto> ''go''] \<and>
   countToOpt [''q'' \<mapsto> ''go''] [] = [''q'' \<mapsto> ''go'']"
  using countToOpt_gating [of "''20''" 20 "[''q'' \<mapsto> ''go'']" ErrSyntax]
    countToOpt_gating [of "''abc''" 0 "[''q'' \<mapsto> ''go'']" ErrSyntax]
    countToOpt_gating [of "[]" 0 "[''q'' \<mapsto> ''go'']" ErrSyntax]
  by (simp add: Atoi_20 Atoi_abc Atoi_Nil)

text \<open>
  Claim C10. Each option builder returns a mapping that agrees with its argument on
  every key other than its own (\<^verbatim>\<open>count\<close>, \<^verbatim>\<open>since\<close>, \<^verbatim>\<open>until\<close>, \<^verbatim>\<open>since_id\<close>,
  \<^verbatim>\<open>max_id\<close>), and no builder removes a key.
\<close>

theorem builders_frame:
  "(k \<noteq> ''count'' \<longrightarrow> countToOpt opt c k = opt k) \<and>
   (k \<noteq> ''since'' \<longrightarrow> sinceToOpt opt s k = opt k) \<and>
   (k \<noteq> ''until'' \<longrightarrow> untilToOpt opt s k = opt k) \<and>
   (k \<noteq> ''since_id'' \<longrightarrow> sinceIDtoOpt opt idv k = opt k) \<and>
   (k \<noteq> ''max_id'' \<longrightarrow> maxIDtoOpt opt idv k = opt k) \<and>
   dom opt \<subseteq> dom (countToOpt opt c) \<and>
   dom opt \<subseteq> dom (sinceToOpt opt s) \<and>
   dom opt \<subseteq> dom (untilToOpt opt s) \<and>
   dom opt \<subseteq> dom (sinceIDtoOpt opt idv) \<and>
   dom opt \<subseteq> dom (maxIDtoOpt opt idv)"
proof -
  have c: "countToOpt opt c = opt \<or> countToOpt opt c = opt(''count'' \<mapsto> c)"
    by (simp add: countToOpt_eq split: sum.split)
  have i: "idToOpt opt key idv = opt \<or> idToOpt opt key idv = opt(key \<mapsto> FormatInt (sint idv))"
    for key
    by (simp add: idToOpt_def)
  have t: "sinceToOpt opt s = opt" "untilToOpt opt s = opt"
    by (simp_all add: sinceToOpt_def untilToOpt_def timeFormatToOpt_id)
  show ?thesis
    using c i [of "''since_id''"] i [of "''max_id''"]
    by (auto simp: t sinceIDtoOpt_def maxIDtoOpt_def)
qed

theorem builders_frame_witness:
  "countToOpt [''q'' \<mapsto> ''go''] ''20'' ''q'' = Some ''go'' \<and>
   sinceToOpt [''q'' \<mapsto> ''go''] ''2017-05-01'' ''q'' = Some ''go'' \<and>
   untilToOpt [''q'' \<mapsto> ''go''] ''2017-05-01'' ''q'' = Some ''go'' \<and>
   sinceIDtoOpt [''q'' \<mapsto> ''go''] 7 ''q'' = Some ''go'' \<and>
   maxIDtoOpt [''q'' \<mapsto> ''go''] 7 ''q'' = Some ''go''"
  using builders_frame [of "''q''" "[''q'' \<mapsto> ''go'']" "''20''" "''2017-05-01''" 7]
  by simp

subsection \<open>Rendering\<close>

lemma downLoop_take:
  "n \<le> length tweets \<Longrightarrow>
   downLoop body tweets (int n - 1) = (Return (), concat (map body (rev (take n tweets))))"
proof (induction n)
  case 0
  show ?case by (simp add: downLoop.simps [of body tweets "- 1"])
next
  case (Suc n)
  then have lt: "n < length tweets" and le: "n \<le> length tweets" by simp_all
  have "downLoop body tweets (int (Suc n) - 1) = downLoop body tweets (int n)" by simp
  also have "\<dots> = (case downLoop body tweets (int n - 1) of
                      (r, evs) \<Rightarrow> (r, body (tweets ! n) @ evs))"
    using lt by (subst downLoop.simps) simp
  also have "\<dots> = (Return (), body (tweets ! n) @ concat (map body (rev (take n tweets))))"
    by (simp add: Suc.IH [OF le])
  also have "\<dots> = (Return (), concat (map body (rev (take (Suc n) tweets))))"
    using lt by (simp add: take_Suc_conv_app_nth)
  finally show ?case .
qed

text \<open>The loop that counts down from the last index never panics and writes the reversed list.\<close>

lemma downLoop_rev:
  "downLoop body tweets (int (length tweets) - 1) = (Return (), concat (map body (rev tweets)))"
  using downLoop_take [of "length tweets" tweets body] by simp

lemma rangeLoop_concat: "rangeLoop body tweets = concat (map body tweets)"
  by (induction tweets) simp_all

text \<open>The replacer drops carriage returns and turns newlines and tabs into spaces.\<close>

lemma Replace_replacer:
  "Replace replacer s =
     map (\<lambda>c. if c = CHR 0x0A \<or> c = CHR 0x09 then CHR '' '' else c)
       (filter (\<lambda>c. c \<noteq> CHR 0x0D) s)"
  by (induction s) (simp_all add: replacer_def)

text \<open>
  Claim C2, as the code has it. In verbose and in plain mode \<^verbatim>\<open>showTweets\<close> writes
  the tweets in reverse of their arrival order; in JSON mode it writes them in
  their arrival order.
\<close>

theorem showTweets_order:
  "showTweets P tweets False verbose =
     (Return (), concat (map (renderTweet P False verbose) (rev tweets))) \<and>
   showTweets P tweets True verbose =
     (Return (), concat (map (renderTweet P True verbose) tweets))"
  by (simp add: showTweets_def downLoop_rev rangeLoop_concat renderTweet_def [abs_def])

theorem showTweets_order_witness:
  "showTweets samplePlatform
     [sampleTweet ''1'' ''first'' [], sampleTweet ''2'' ''second'' []] False False =
     (Return (),
      [ColorSet FgHiRed, Print ''alice'', ColorSet Reset, Print '': '', Println ''second'',
       ColorSet FgHiRed, Print ''alice'', ColorSet Reset, Print '': '', Println ''first'']) \<and>
   showTweets samplePlatform
     [sampleTweet ''1'' ''first'' [], sampleTweet ''2'' ''second'' []] True False =
     (Return (),
      [Encode (sampleTweet ''1'' ''first'' []), Sync,
       Encode (sampleTweet ''2'' ''second'' []), Sync])"
  using showTweets_order [of samplePlatform
      "[sampleTweet ''1'' ''first'' [], sampleTweet ''2'' ''second'' []]" False]
  by (simp add: renderTweet_def plainBody_def jsonBody_def samplePlatform_def sampleTweet_def)

text \<open>
  Claim C2, as it is written, fails in JSON mode: two tweets are encoded in the
  order they arrived in, which is not the reverse order.
\<close>

theorem showTweets_json_counterexample:
  "showTweets samplePlatform
     [sampleTweet ''1'' ''first'' [], sampleTweet ''2'' ''second'' []] True False =
     (Return (),
      [Encode (sampleTweet ''1'' ''first'' []), Sync,
       Encode (sampleTweet ''2'' ''second'' []), Sync]) \<and>
   showTweets samplePlatform
     [sampleTweet ''1'' ''first'' [], sampleTweet ''2'' ''second'' []] True False \<noteq>
     (Return (),
      concat (map (renderTweet samplePlatform True False)
        (rev [sampleTweet ''1'' ''first'' [], sampleTweet ''2'' ''second'' []])))"
  by (simp add: showTweets_def renderTweet_def jsonBody_def sampleTweet_def)

text \<open>
  Claim C8. In verbose mode every tweet is written as five lines: the screen name,
  a colon and the display name; two spaces and the text without its carriage
  returns, with a space for each newline and tab, and then unescaped; two spaces and
  the identifier; two spaces and the creation time, parsed in the layout
  \<^verbatim>\<open>Mon Jan 02 15:04:05 -0700 2006\<close> and formatted in the same layout in local time,
  or as it is when it does not parse; and an empty line.
\<close>

theorem verbose_five_lines:
  "showTweets P tweets False True =
     (Return (),
      concat (map (\<lambda>tweet.
        [ColorSet FgHiRed,
         Println (ScreenName (User tweet) @ '': '' @ Name (User tweet)),
         ColorSet Reset,
         Println (''  '' @ UnescapeString P
            (map (\<lambda>c. if c = CHR 0x0A \<or> c = CHR 0x09 then CHR '' '' else c)
               (filter (\<lambda>c. c \<noteq> CHR 0x0D) (Text tweet)))),
         Println (''  '' @ Identifier tweet),
         Println (''  '' @
            (case Parse P ''Mon Jan 02 15:04:05 -0700 2006'' (CreatedAt tweet) of
               None \<Rightarrow> CreatedAt tweet
             | Some t \<Rightarrow> LocalFormat P t ''Mon Jan 02 15:04:05 -0700 2006'')),
         Println []]) (rev tweets)))"
proof -
  have "verboseBody P = (\<lambda>tweet.
        [ColorSet FgHiRed,
         Println (ScreenName (User tweet) @ '': '' @ Name (User tweet)),
         ColorSet Reset,
         Println (''  '' @ UnescapeString P
            (map (\<lambda>c. if c = CHR 0x0A \<or> c = CHR 0x09 then CHR '' '' else c)
               (filter (\<lambda>c. c \<noteq> CHR 0x0D) (Text tweet)))),
         Println (''  '' @ Identifier tweet),
         Println (''  '' @
            (case Parse P ''Mon Jan 02 15:04:05 -0700 2006'' (CreatedAt tweet) of
               None \<Rightarrow> CreatedAt tweet
             | Some t \<Rightarrow> LocalFormat P t ''Mon Jan 02 15:04:05 -0700 2006'')),
         Println []])"
    by (rule ext)
      (simp add: verboseBody_def Let_def Replace_replacer toLocalTime_def TimeLayout_def
        split: option.split)
  then show ?thesis
    by (simp add: showTweets_def downLoop_rev)
qed

theorem verbose_five_lines_witness:
  "showTweets samplePlatform
     [sampleTweet ''42'' (''a'' @ [CHR 0x0D, CHR 0x0A] @ ''b'' @ [CHR 0x09] @ ''c &amp; d'')
        ''Mon May 01 10:00:00 +0000 2017'',
      sampleTweet ''43'' ''e'' ''yesterday''] False True =
     (Return (),
      [ColorSet FgHiRed, Println ''alice: Alice A'', ColorSet Reset,
       Println ''  e'', Println ''  43'', Println ''  yesterday'', Println [],
       ColorSet FgHiRed, Println ''alice: Alice A'', ColorSet Reset,
       Println ''  a b c &amp; d'', Println ''  42'',
       Println ''  Mon May 01 19:00:00 +0900 2017'', Println []])"
  using verbose_five_lines [of samplePlatform
      "[sampleTweet ''42'' (''a'' @ [CHR 0x0D, CHR 0x0A] @ ''b'' @ [CHR 0x09] @ ''c &amp; d'')
          ''Mon May 01 10:00:00 +0000 2017'',
        sampleTweet ''43'' ''e'' ''yesterday'']"]
  by (simp add: samplePlatform_def sampleTweet_def)

subsection \<open>Configuration\<close>

lemma slice_settings:
  "slice (''settings'' @ m @ ''.json'') 8 (int (length (''settings'' @ m @ ''.json'')) - 5) = Some m"
  by (simp add: slice_def)

text \<open>
  On names that match \<^verbatim>\<open>settings*.json\<close> the loop never panics, and prints what the
  star stands for, without its leading hyphens.
\<close>

lemma printNames_mids:
  "map (Base E) names = map (\<lambda>m. ''settings'' @ m @ ''.json'') mids \<Longrightarrow>
   printNames E names = (Return (), map (\<lambda>m. Println (dropWhile (\<lambda>c. c = CHR ''-'') m)) mids)"
proof (induction names arbitrary: mids)
  case Nil
  then show ?case by simp
next
  case (Cons name names)
  then obtain m ms where mids: "mids = m # ms"
    and b: "Base E name = ''settings'' @ m @ ''.json''"
    and r: "map (Base E) names = map (\<lambda>m. ''settings'' @ m @ ''.json'') ms"
    by (cases mids) auto
  from slice_settings [of m]
  have s: "slice (Base E name) 8 (int (length (Base E name)) - 5) = Some m"
    by (simp only: b)
  show ?case
    by (simp add: mids s Cons.IH [OF r] TrimLeft_def Let_def del: append.simps)
qed

lemma loadSettings_file: "loadSettings E f = Inr (file, config) \<Longrightarrow> file = f"
  by (auto simp: loadSettings_def split: sum.splits if_splits)

lemma sampleEnv_dir: "configDir (sampleEnv names) = ''/home/u/.config/twty''"
  by (simp add: configDir_def sampleEnv_def)

lemma sampleEnv_MkdirAll: "MkdirAll (sampleEnv names) d = None"
  by (simp add: sampleEnv_def)

lemma sampleEnv_ReadFile:
  "ReadFile (sampleEnv names) f = Inl (NotExistError ''no such file or directory'')"
  by (simp add: sampleEnv_def)

lemma sampleEnv_Join:
  "Join (sampleEnv names) [''/home/u/.config/twty'', f] =
     (if f = [] then ''/home/u/.config/twty'' else ''/home/u/.config/twty/'' @ f)"
  by (simp add: sampleEnv_def)

text \<open>
  Claim C6. When the directory is there and reading the settings file of a profile
  fails because the file does not exist, \<^verbatim>\<open>getConfig\<close> returns a configuration of
  exactly two keys, \<^verbatim>\<open>ClientToken\<close> and \<^verbatim>\<open>ClientSecret\<close>, with the two built-in
  values, and no \<^verbatim>\<open>AccessToken\<close> or \<^verbatim>\<open>AccessSecret\<close>.
\<close>

theorem getConfig_seeded:
  assumes "MkdirAll E (configDir E) = None"
    and "profile \<noteq> ''?''"
    and "file = Join E [configDir E,
                        if profile = [] then ''settings.json''
                        else ''settings-'' @ profile @ ''.json'']"
    and "ReadFile E file = Inl err"
    and "IsNotExist err"
  shows "\<exists>config.
           getConfig E profile =
             (Return (Inr (file, config)), [MkdirAllEv (configDir E), ReadFileEv file]) \<and>
           dom config = {''ClientToken'', ''ClientSecret''} \<and>
           config ''ClientToken'' = Some ''MbartJkKCrSegn45xK9XLw'' \<and>
           config ''ClientSecret'' = Some ''1nI3dHFtK9UY1kL6UEYWk6r2lFEcNHWhk7MtXe7eo'' \<and>
           config ''AccessToken'' = None \<and>
           config ''AccessSecret'' = None"
proof -
  let ?config = "[''ClientToken'' \<mapsto> ''MbartJkKCrSegn45xK9XLw'',
                  ''ClientSecret'' \<mapsto> ''1nI3dHFtK9UY1kL6UEYWk6r2lFEcNHWhk7MtXe7eo'']"
  have l: "loadSettings E file = Inr (file, ?config)"
    using assms(4,5) by (simp add: loadSettings_def)
  have g: "getConfig E profile =
             (Return (Inr (file, ?config)), [MkdirAllEv (configDir E), ReadFileEv file])"
  proof (cases "profile = []")
    case True
    with assms(1,3) l show ?thesis by (simp add: getConfig_def Let_def)
  next
    case False
    with assms(1,2,3) l show ?thesis by (simp add: getConfig_def Let_def)
  qed
  have d: "dom ?config = {''ClientToken'', ''ClientSecret''}"
    by auto
  show ?thesis
    using g d by (intro exI [of _ ?config]) simp
qed

theorem getConfig_seeded_witness:
  "MkdirAll (sampleEnv []) (configDir (sampleEnv [])) = None \<and>
   ReadFile (sampleEnv []) ''/home/u/.config/twty/settings-work.json'' =
     Inl (NotExistError ''no such file or directory'') \<and>
   (\<exists>config.
      getConfig (sampleEnv []) ''work'' =
        (Return (Inr (''/home/u/.config/twty/settings-work.json'', config)),
         [MkdirAllEv ''/home/u/.config/twty'',
          ReadFileEv ''/home/u/.config/twty/settings-work.json'']) \<and>
      dom config = {''ClientToken'', ''ClientSecret''} \<and>
      config ''ClientToken'' = Some ''MbartJkKCrSegn45xK9XLw'' \<and>
      config ''ClientSecret'' = Some ''1nI3dHFtK9UY1kL6UEYWk6r2lFEcNHWhk7MtXe7eo'' \<and>
      config ''AccessToken'' = None \<and>
      config ''AccessSecret'' = None)"
proof -
  have 1: "MkdirAll (sampleEnv []) (configDir (sampleEnv [])) = None"
    by (rule sampleEnv_MkdirAll)
  have 2: "''work'' \<noteq> ''?''"
    by simp
  have 3: "''/home/u/.config/twty/settings-work.json'' =
             Join (sampleEnv []) [configDir (sampleEnv []),
               if ''work'' = [] then ''settings.json'' else ''settings-'' @ ''work'' @ ''.json'']"
    by (simp add: sampleEnv_dir sampleEnv_Join)
  have 4: "ReadFile (sampleEnv []) ''/home/u/.config/twty/settings-work.json'' =
             Inl (NotExistError ''no such file or directory'')"
    by (rule sampleEnv_ReadFile)
  have 5: "IsNotExist (NotExistError ''no such file or directory'')"
    by simp
  from getConfig_seeded [OF 1 2 3 4 5] 1 4 show ?thesis
    by (simp add: sampleEnv_dir)
qed

text \<open>
  Claim C7. Once the directory is there, the empty profile name reads
  \<^verbatim>\<open>settings.json\<close> in it and any name other than the empty one and \<^verbatim>\<open>?\<close> reads
  \<^verbatim>\<open>settings-<profile>.json\<close>, and that is the file name returned. The name \<^verbatim>\<open>?\<close>
  reads no settings file: for the files that match \<^verbatim>\<open>settings*.json\<close> it prints
  each name without the prefix \<^verbatim>\<open>settings\<close>, the suffix \<^verbatim>\<open>.json\<close> and the leading
  hyphens, and the process exits with status 0.
\<close>

theorem getConfig_profile_file:
  assumes "MkdirAll E (configDir E) = None"
  shows "getConfig E [] =
           (Return (loadSettings E (Join E [configDir E, ''settings.json''])),
            [MkdirAllEv (configDir E), ReadFileEv (Join E [configDir E, ''settings.json''])]) \<and>
         (profile \<noteq> [] \<and> profile \<noteq> ''?'' \<longrightarrow>
          getConfig E profile =
            (Return (loadSettings E (Join E [configDir E, ''settings-'' @ profile @ ''.json''])),
             [MkdirAllEv (configDir E),
              ReadFileEv (Join E [configDir E, ''settings-'' @ profile @ ''.json''])])) \<and>
         (profile \<noteq> ''?'' \<and> fst (getConfig E profile) = Return (Inr (file, config)) \<longrightarrow>
          file = Join E [configDir E,
                         if profile = [] then ''settings.json''
                         else ''settings-'' @ profile @ ''.json'']) \<and>
         (Glob E (Join E [configDir E, ''settings*.json'']) = Inr names \<and>
          map (Base E) names = map (\<lambda>m. ''settings'' @ m @ ''.json'') mids \<longrightarrow>
          getConfig E ''?'' =
            (Exit 0,
             [MkdirAllEv (configDir E), GlobEv (Join E [configDir E, ''settings*.json''])] @
             map (\<lambda>m. Println (dropWhile (\<lambda>c. c = CHR ''-'') m)) mids))"
proof (intro conjI impI)
  show e: "getConfig E [] =
           (Return (loadSettings E (Join E [configDir E, ''settings.json''])),
            [MkdirAllEv (configDir E), ReadFileEv (Join E [configDir E, ''settings.json''])])"
    using assms by (simp add: getConfig_def Let_def)
  have p: "getConfig E profile =
            (Return (loadSettings E (Join E [configDir E, ''settings-'' @ profile @ ''.json''])),
             [MkdirAllEv (configDir E),
              ReadFileEv (Join E [configDir E, ''settings-'' @ profile @ ''.json''])])"
    if "profile \<noteq> [] \<and> profile \<noteq> ''?''"
    using assms that by (simp add: getConfig_def Let_def)
  show "getConfig E profile =
            (Return (loadSettings E (Join E [configDir E, ''settings-'' @ profile @ ''.json''])),
             [MkdirAllEv (configDir E),
              ReadFileEv (Join E [configDir E, ''settings-'' @ profile @ ''.json''])])"
    if "profile \<noteq> [] \<and> profile \<noteq> ''?''"
    using that by (rule p)
  show "file = Join E [configDir E,
                         if profile = [] then ''settings.json''
                         else ''settings-'' @ profile @ ''.json'']"
    if h: "profile \<noteq> ''?'' \<and> fst (getConfig E profile) = Return (Inr (file, config))"
  proof (cases "profile = []")
    case True
    with h e show ?thesis by (auto dest: loadSettings_file)
  next
    case False
    with h p show ?thesis by (auto dest: loadSettings_file)
  qed
  show "getConfig E ''?'' =
            (Exit 0,
             [MkdirAllEv (configDir E), GlobEv (Join E [configDir E, ''settings*.json''])] @
             map (\<lambda>m. Println (dropWhile (\<lambda>c. c = CHR ''-'') m)) mids)"
    if h: "Glob E (Join E [configDir E, ''settings*.json'']) = Inr names \<and>
          map (Base E) names = map (\<lambda>m. ''settings'' @ m @ ''.json'') mids"
  proof -
    from h have "printNames E names =
        (Return (), map (\<lambda>m. Println (dropWhile (\<lambda>c. c = CHR ''-'') m)) mids)"
      by (simp add: printNames_mids)
    with assms h show ?thesis by (simp add: getConfig_def Let_def)
  qed
qed

theorem getConfig_profile_file_witness:
  "MkdirAll (sampleEnv [''/home/u/.config/twty/settings.json'',
                         ''/home/u/.config/twty/settings-work.json'',
                         ''/home/u/.config/twty/settings--x.json''])
     (configDir (sampleEnv [''/home/u/.config/twty/settings.json'',
                            ''/home/u/.config/twty/settings-work.json'',
                            ''/home/u/.config/twty/settings--x.json''])) = None \<and>
   snd (getConfig (sampleEnv [''/home/u/.config/twty/settings.json'',
                              ''/home/u/.config/twty/settings-work.json'',
                              ''/home/u/.config/twty/settings--x.json'']) []) =
     [MkdirAllEv ''/home/u/.config/twty'', ReadFileEv ''/home/u/.config/twty/settings.json''] \<and>
   snd (getConfig (sampleEnv [''/home/u/.config/twty/settings.json'',
                              ''/home/u/.config/twty/settings-work.json'',
                              ''/home/u/.config/twty/settings--x.json'']) ''work'') =
     [MkdirAllEv ''/home/u/.config/twty'',
      ReadFileEv ''/home/u/.config/twty/settings-work.json''] \<and>
   getConfig (sampleEnv [''/home/u/.config/twty/settings.json'',
                         ''/home/u/.config/twty/settings-work.json'',
                         ''/home/u/.config/twty/settings--x.json'']) ''?'' =
     (Exit 0,
      [MkdirAllEv ''/home/u/.config/twty'', GlobEv ''/home/u/.config/twty/settings*.json'',
       Println [], Println ''work'', Println ''x''])"
proof -
  let ?E = "sampleEnv [''/home/u/.config/twty/settings.json'',
                       ''/home/u/.config/twty/settings-work.json'',
                       ''/home/u/.config/twty/settings--x.json'']"
  have 1: "MkdirAll ?E (configDir ?E) = None"
    by (rule sampleEnv_MkdirAll)
  have 2: "Glob ?E (Join ?E [configDir ?E, ''settings*.json'']) =
             Inr [''/home/u/.config/twty/settings.json'',
                  ''/home/u/.config/twty/settings-work.json'',
                  ''/home/u/.config/twty/settings--x.json''] \<and>
           map (Base ?E) [''/home/u/.config/twty/settings.json'',
                          ''/home/u/.config/twty/settings-work.json'',
                          ''/home/u/.config/twty/settings--x.json''] =
             map (\<lambda>m. ''settings'' @ m @ ''.json'') [[], ''-work'', ''--x'']"
    by (simp add: sampleEnv_def)
  from getConfig_profile_file [OF 1, where profile = "''work''"
      and names = "[''/home/u/.config/twty/settings.json'',
                    ''/home/u/.config/twty/settings-work.json'',
                    ''/home/u/.config/twty/settings--x.json'']"
      and mids = "[[], ''-work'', ''--x'']"] 1 2
  show ?thesis
    by (simp add: sampleEnv_dir sampleEnv_Join)
qed

subsection \<open>Authorization\<close>

text \<open>
  Claim C9. When the configuration holds both keys \<^verbatim>\<open>AccessToken\<close> and
  \<^verbatim>\<open>AccessSecret\<close>, whatever their values, \<^verbatim>\<open>getAccessToken\<close> returns the credential
  made of these two values with the flag false and no error, requests nothing from
  the provider, asks for no PIN, and leaves the configuration as it was.
\<close>

theorem getAccessToken_cached:
  assumes "config ''AccessToken'' = Some t" and "config ''AccessSecret'' = Some s"
  shows "getAccessToken E config =
           (Inr (\<lparr>Token = t, Secret = s\<rparr>, False), config,
            \<lparr>Token = lookup config ''ClientToken'', Secret = lookup config ''ClientSecret''\<rparr>, [])"
  using assms by (simp add: getAccessToken_def Let_def lookup_def)

theorem getAccessToken_cached_witness:
  "[''ClientToken'' \<mapsto> ''ct'', ''AccessToken'' \<mapsto> [], ''AccessSecret'' \<mapsto> ''as'']
     ''AccessToken'' = Some [] \<and>
   [''ClientToken'' \<mapsto> ''ct'', ''AccessToken'' \<mapsto> [], ''AccessSecret'' \<mapsto> ''as'']
     ''AccessSecret'' = Some ''as'' \<and>
   getAccessToken (sampleEnv [])
     [''ClientToken'' \<mapsto> ''ct'', ''AccessToken'' \<mapsto> [], ''AccessSecret'' \<mapsto> ''as''] =
     (Inr (\<lparr>Token = [], Secret = ''as''\<rparr>, False),
      [''ClientToken'' \<mapsto> ''ct'', ''AccessToken'' \<mapsto> [], ''AccessSecret'' \<mapsto> ''as''],
      \<lparr>Token = ''ct'', Secret = []\<rparr>, [])"
proof -
  let ?config = "[''ClientToken'' \<mapsto> ''ct'', ''AccessToken'' \<mapsto> [], ''AccessSecret'' \<mapsto> ''as'']"
  have 1: "?config ''AccessToken'' = Some []"
    by simp
  have 2: "?config ''AccessSecret'' = Some ''as''"
    by simp
  have 3: "lookup ?config ''ClientToken'' = ''ct''" "lookup ?config ''ClientSecret'' = []"
    by (simp_all add: lookup_def)
  have "getAccessToken (sampleEnv []) ?config =
          (Inr (\<lparr>Token = [], Secret = ''as''\<rparr>, False), ?config,
           \<lparr>Token = ''ct'', Secret = []\<rparr>, [])"
    using getAccessToken_cached [OF 1 2, of "sampleEnv []"] unfolding 3 .
  with 1 2 show ?thesis
    by blast
qed

text \<open>
  Without the two keys the provider is asked: in the sample environment, which has
  no network, the request for temporary credentials is made and fails.
\<close>

lemma getAccessToken_fresh_sample:
  "getAccessToken (sampleEnv []) [''ClientToken'' \<mapsto> ''ct'', ''AccessToken'' \<mapsto> ''at''] =
     (Inl (OtherError ''cannot request temporary credentials: no network''),
      [''ClientToken'' \<mapsto> ''ct'', ''AccessToken'' \<mapsto> ''at''],
      \<lparr>Token = ''ct'', Secret = []\<rparr>,
      [RequestTemporaryCredentialsEv \<lparr>Token = ''ct'', Secret = []\<rparr>])"
  by (simp add: getAccessToken_def Let_def lookup_def sampleEnv_def)

end
